theory Spec2Isabelle
  imports Complex_Main "HOL-Library.Multiset" "HOL-Library.AList"
begin

section \<open>Strings\<close>

text \<open>
  Python strings are modelled as \<open>string\<close>. \<open>str.lower()\<close> is modelled on the ASCII
  letters \<open>A\<close>..\<open>Z\<close>; every other character is left as it is.
\<close>

definition lower_char :: "char \<Rightarrow> char" where
  "lower_char c =
     (let n = (of_char c :: nat) in if 65 \<le> n \<and> n \<le> 90 then char_of (n + 32) else c)"

definition lower :: "string \<Rightarrow> string" where
  "lower s = map lower_char s"

fun starts_with :: "string \<Rightarrow> string \<Rightarrow> bool" where
  "starts_with [] s = True"
| "starts_with (k # ks) [] = False"
| "starts_with (k # ks) (c # s) = (k = c \<and> starts_with ks s)"

text \<open>\<open>substring_of k s\<close> is Python's \<open>k in s\<close> on strings.\<close>

fun substring_of :: "string \<Rightarrow> string \<Rightarrow> bool" where
  "substring_of k [] = (k = [])"
| "substring_of k (c # s) = (starts_with k (c # s) \<or> substring_of k s)"

section \<open>Dependency-aware batch scheduler (main.py, \<open>_create_execution_batches\<close>)\<close>

text \<open>
  A plan step is the dictionary the planner returns; the planner reads all four keys of
  every step before the plan reaches the scheduler.
\<close>

record step =
  step_number :: int
  action :: string
  search_queries :: "string list"
  reasoning :: string

definition dependency_keywords :: "string list" where
  "dependency_keywords =
     [''based on'', ''using'', ''compare'', ''synthesize'', ''combine'',
      ''previous'', ''earlier'', ''above'', ''from step'', ''after'']"

definition step_text :: "step \<Rightarrow> string" where
  "step_text s = lower (action s @ '' '' @ reasoning s)"

text \<open>
  \<open>has_dependency n s\<close> is the flag computed in the body of the \<open>for\<close> loop, where
  \<open>n\<close> is \<open>len(steps)\<close> of the whole plan.
\<close>

definition has_dependency :: "nat \<Rightarrow> step \<Rightarrow> bool" where
  "has_dependency n s =
     (let d0 = False;
          d1 = (if list_ex (\<lambda>keyword. substring_of keyword (step_text s)) dependency_keywords
                then True else d0);
          d2 = (if step_number s = int n then True else d1)
      in d2)"

text \<open>One pass of the \<open>for\<close> loop over a step: the pair is
  \<open>(current_batch, next_remaining)\<close>.\<close>

fun place_step :: "nat \<Rightarrow> step list \<times> step list \<Rightarrow> step \<Rightarrow> step list \<times> step list" where
  "place_step n (current_batch, next_remaining) s =
     (if has_dependency n s \<and> current_batch \<noteq> []
      then (current_batch, next_remaining @ [s])
      else (current_batch @ [s], next_remaining))"

definition scan_round :: "nat \<Rightarrow> step list \<Rightarrow> step list \<times> step list" where
  "scan_round n remaining_steps = foldl (place_step n) ([], []) remaining_steps"

lemma place_step_length:
  "length (fst (place_step n p s)) + length (snd (place_step n p s))
     = Suc (length (fst p) + length (snd p))"
  by (cases p) simp

lemma foldl_place_step_length:
  "length (fst (foldl (place_step n) p xs)) + length (snd (foldl (place_step n) p xs))
     = length (fst p) + length (snd p) + length xs"
proof (induction xs arbitrary: p)
  case Nil
  show ?case by simp
next
  case (Cons x xs)
  show ?case
    using Cons.IH [of "place_step n p x"] place_step_length [of n p x] by simp
qed

lemma scan_round_length:
  "scan_round n xs = (cb, nr) \<Longrightarrow> length cb + length nr = length xs"
  using foldl_place_step_length [of n "([], [])" xs] by (simp add: scan_round_def)

text \<open>The \<open>while remaining_steps\<close> loop; \<open>batches\<close> is the accumulator.\<close>

function batches_loop :: "nat \<Rightarrow> step list list \<Rightarrow> step list \<Rightarrow> step list list" where
  "batches_loop n batches remaining_steps =
     (if remaining_steps = [] then batches
      else (case scan_round n remaining_steps of
              (current_batch, next_remaining) \<Rightarrow>
                if current_batch \<noteq> []
                then batches_loop n (batches @ [current_batch]) next_remaining
                else batches @ map (\<lambda>s. [s]) remaining_steps))"
  by pat_completeness auto
termination
  apply (relation "measure (\<lambda>(n, batches, remaining_steps). length remaining_steps)")
   apply simp
  subgoal premises prems for n batches remaining_steps x xa
    using scan_round_length [of n remaining_steps x xa] prems by (cases x) auto
  done

definition create_execution_batches :: "step list \<Rightarrow> step list list" where
  "create_execution_batches steps = batches_loop (length steps) [] steps"


subsection \<open>Closed form of the scheduler\<close>

declare batches_loop.simps [simp del]

lemma foldl_place_step_nonempty:
  "cb \<noteq> [] \<Longrightarrow>
   foldl (place_step n) (cb, nr) xs
     = (cb @ filter (\<lambda>s. \<not> has_dependency n s) xs, nr @ filter (has_dependency n) xs)"
  by (induction xs arbitrary: cb nr) auto

lemma scan_round_Cons:
  "scan_round n (x # xs)
     = (x # filter (\<lambda>s. \<not> has_dependency n s) xs, filter (has_dependency n) xs)"
  by (simp add: scan_round_def foldl_place_step_nonempty)

lemma batches_loop_Nil: "batches_loop n bs [] = bs"
  by (simp add: batches_loop.simps)

lemma batches_loop_step:
  "batches_loop n bs (x # xs)
     = batches_loop n (bs @ [x # filter (\<lambda>s. \<not> has_dependency n s) xs])
         (filter (has_dependency n) xs)"
  by (subst batches_loop.simps) (simp add: scan_round_Cons)

text \<open>Once only dependent steps remain, every round emits the first of them alone.\<close>

lemma batches_loop_all_dependent:
  "\<forall>s \<in> set xs. has_dependency n s \<Longrightarrow> batches_loop n bs xs = bs @ map (\<lambda>s. [s]) xs"
proof (induction xs arbitrary: bs)
  case Nil
  show ?case by (simp add: batches_loop_Nil)
next
  case (Cons x xs)
  from Cons.prems have all: "\<forall>s \<in> set xs. has_dependency n s" by simp
  then have f1: "filter (\<lambda>s. \<not> has_dependency n s) xs = []"
    and f2: "filter (has_dependency n) xs = xs"
    by (auto simp: filter_empty_conv filter_id_conv)
  show ?case
    by (simp add: batches_loop_step f1 f2 Cons.IH [OF all])
qed

lemma create_execution_batches_Nil: "create_execution_batches [] = []"
  by (simp add: create_execution_batches_def batches_loop_Nil)

lemma create_execution_batches_Cons:
  "create_execution_batches (x # xs)
     = (x # filter (\<lambda>s. \<not> has_dependency (Suc (length xs)) s) xs)
       # map (\<lambda>s. [s]) (filter (has_dependency (Suc (length xs))) xs)"
  by (simp add: create_execution_batches_def batches_loop_step batches_loop_all_dependent)

lemma sum_mset_singletons: "(\<Sum>b\<leftarrow>map (\<lambda>s. [s]) ys. mset b) = mset ys"
  by (induction ys) simp_all

lemma batches_mset: "(\<Sum>b\<leftarrow>create_execution_batches steps. mset b) = mset steps"
proof (cases steps)
  case Nil
  then show ?thesis by (simp add: create_execution_batches_Nil)
next
  case (Cons x xs)
  show ?thesis
    unfolding Cons create_execution_batches_Cons
    using sum_mset_singletons [of "filter (has_dependency (Suc (length xs))) xs"]
    by (simp add: o_def)
qed

lemma batches_nonempty: "b \<in> set (create_execution_batches steps) \<Longrightarrow> b \<noteq> []"
  by (cases steps) (auto simp: create_execution_batches_Nil create_execution_batches_Cons)

lemma last_filter_keeps:
  "xs \<noteq> [] \<Longrightarrow> P (last xs) \<Longrightarrow> filter P xs \<noteq> [] \<and> last (filter P xs) = last xs"
  by (cases xs rule: rev_cases) auto

lemma last_step_dependent:
  assumes "steps \<noteq> []" and "map step_number steps = [1..int (length steps)]"
  shows "has_dependency (length steps) (last steps)"
proof -
  have "1 \<le> int (length steps)" using assms(1) by (cases steps) auto
  then have "last [1..int (length steps)] = int (length steps)"
    by (simp add: upto_rec2)
  with assms have "step_number (last steps) = int (length steps)"
    by (metis last_map)
  then show ?thesis by (simp add: has_dependency_def)
qed

definition mk_step :: "int \<Rightarrow> string \<Rightarrow> step" where
  "mk_step i a = \<lparr>step_number = i, action = a, search_queries = [a], reasoning = ''Needed''\<rparr>"

lemma scheduler_scenario_keyword:
  "create_execution_batches
     [mk_step 1 ''Find A'', mk_step 2 ''Find B'', mk_step 3 ''Based on steps 1 and 2'']
   = [[mk_step 1 ''Find A'', mk_step 2 ''Find B''], [mk_step 3 ''Based on steps 1 and 2'']]"
  by code_simp

lemma scheduler_scenario_interleaved:
  "create_execution_batches
     [mk_step 1 ''Find A'', mk_step 2 ''Compare B'', mk_step 3 ''Find C'', mk_step 4 ''Find D'']
   = [[mk_step 1 ''Find A'', mk_step 3 ''Find C''], [mk_step 2 ''Compare B''],
      [mk_step 4 ''Find D'']]"
  by code_simp

text \<open>
  C1 (synthesis-last). For every plan whose steps are numbered \<open>1..n\<close> in order
  (\<open>n \<ge> 1\<close>), the scheduler emits at least one batch, its last batch is the singleton
  holding exactly the last step of the plan, and the last step is in no earlier batch.
  Nothing is assumed about the text of the last step, so this holds when its action and
  reasoning contain no dependency keyword.
\<close>

theorem synthesis_last:
  assumes "steps \<noteq> []" and "map step_number steps = [1..int (length steps)]"
  shows "create_execution_batches steps \<noteq> [] \<and>
         last (create_execution_batches steps) = [last steps] \<and>
         last steps \<notin> set (concat (butlast (create_execution_batches steps)))"
proof -
  let ?bs = "create_execution_batches steps"
  have dep: "has_dependency (length steps) (last steps)"
    using assms by (rule last_step_dependent)
  obtain x xs where steps: "steps = x # xs" using assms(1) by (cases steps) auto
  have ne: "?bs \<noteq> []" by (simp add: steps create_execution_batches_Cons)
  have lst: "last ?bs = [last steps]"
  proof (cases "xs = []")
    case True
    then show ?thesis by (simp add: steps create_execution_batches_Cons)
  next
    case False
    with dep have d: "has_dependency (Suc (length xs)) (last xs)" by (simp add: steps)
    from last_filter_keeps [OF False, of "has_dependency (Suc (length xs))"] d
    have "filter (has_dependency (Suc (length xs))) xs \<noteq> []"
      and "last (filter (has_dependency (Suc (length xs))) xs) = last xs"
      by simp_all
    then show ?thesis
      using False by (simp add: steps create_execution_batches_Cons last_map)
  qed
  have "distinct (map step_number steps)" by (simp add: assms(2))
  then have "distinct steps" by (simp add: distinct_map)
  moreover have "mset (concat ?bs) = mset steps"
    using batches_mset [of steps] by (simp add: mset_concat)
  ultimately have "distinct (concat ?bs)" by (metis mset_eq_imp_distinct_iff)
  moreover have "concat ?bs = concat (butlast ?bs) @ [last steps]"
    using ne lst by (metis append_butlast_last_id concat_append concat.simps append_Nil2)
  ultimately have "last steps \<notin> set (concat (butlast ?bs))" by auto
  with ne lst show ?thesis by simp
qed

theorem synthesis_last_witness:
  "[mk_step 1 ''Find A'', mk_step 2 ''Find B'', mk_step 3 ''Find C''] \<noteq> [] \<and>
   map step_number [mk_step 1 ''Find A'', mk_step 2 ''Find B'', mk_step 3 ''Find C'']
     = [1..int (length [mk_step 1 ''Find A'', mk_step 2 ''Find B'', mk_step 3 ''Find C''])] \<and>
   \<not> list_ex (\<lambda>keyword. substring_of keyword (step_text (mk_step 3 ''Find C'')))
        dependency_keywords \<and>
   last (create_execution_batches
           [mk_step 1 ''Find A'', mk_step 2 ''Find B'', mk_step 3 ''Find C''])
     = [mk_step 3 ''Find C'']"
proof -
  let ?steps = "[mk_step 1 ''Find A'', mk_step 2 ''Find B'', mk_step 3 ''Find C'']"
  have h1: "?steps \<noteq> []" by simp
  have h2: "map step_number ?steps = [1..int (length ?steps)]" by code_simp
  have h3: "\<not> list_ex (\<lambda>keyword. substring_of keyword (step_text (mk_step 3 ''Find C'')))
        dependency_keywords" by code_simp
  have "last (create_execution_batches ?steps) = [last ?steps]"
    using synthesis_last [OF h1 h2] by simp
  then have "last (create_execution_batches ?steps) = [mk_step 3 ''Find C'']" by simp
  with h1 h2 h3 show ?thesis by blast
qed

text \<open>
  C2 (no empty batch, nothing dropped or duplicated). For every non-empty list of steps,
  every batch the scheduler returns is non-empty, and the multiset union of the batches
  is the multiset of the input steps.
\<close>

theorem batches_partition_steps:
  assumes "steps \<noteq> []"
  shows "(\<forall>b \<in> set (create_execution_batches steps). b \<noteq> []) \<and>
         (\<Sum>b\<leftarrow>create_execution_batches steps. mset b) = mset steps"
  using batches_nonempty [of _ steps] batches_mset [of steps] by blast

theorem batches_partition_steps_witness:
  "[mk_step 1 ''Find A'', mk_step 2 ''Compare B'', mk_step 3 ''Find C''] \<noteq> [] \<and>
   [] \<notin> set (create_execution_batches
                [mk_step 1 ''Find A'', mk_step 2 ''Compare B'', mk_step 3 ''Find C'']) \<and>
   (\<Sum>b\<leftarrow>create_execution_batches
          [mk_step 1 ''Find A'', mk_step 2 ''Compare B'', mk_step 3 ''Find C'']. mset b)
     = mset [mk_step 1 ''Find A'', mk_step 2 ''Compare B'', mk_step 3 ''Find C'']"
proof -
  have h: "[mk_step 1 ''Find A'', mk_step 2 ''Compare B'', mk_step 3 ''Find C''] \<noteq> []"
    by simp
  show ?thesis using h batches_partition_steps [OF h] by blast
qed


section \<open>Exceptions\<close>

text \<open>
  Exceptions are values. A method that can raise after it has changed the object returns
  the error (if any) together with the object as the exception leaves it.
  \<open>AllKeysExhausted\<close> is the exception \<open>All Gemini API keys exhausted!\<close>.
\<close>

datatype error = ValueError | IndexError | KeyError | ZeroDivisionError | NameError
  | AttributeError | TypeError | AllKeysExhausted | OSError

section \<open>Credential pool (utils/api_manager.py, \<open>GeminiAPIManager\<close>)\<close>

record api_key =
  key :: string
  exhausted :: bool

record GeminiAPIManager =
  api_keys :: "api_key list"
  current_index :: nat

definition new_manager :: "string list \<Rightarrow> error + GeminiAPIManager" where
  "new_manager GEMINI_API_KEYS =
     (let m = \<lparr>api_keys = map (\<lambda>k. \<lparr>key = k, exhausted = False\<rparr>) GEMINI_API_KEYS,
               current_index = 0\<rparr>
      in if api_keys m = [] then Inl ValueError else Inr m)"

text \<open>
  The \<open>while True\<close> loop of \<open>mark_current_exhausted\<close>: \<open>ks\<close> is \<open>self.api_keys\<close>,
  \<open>cur\<close> is \<open>self.current_index\<close>. The result \<open>None\<close> stands for a loop that never ends.
\<close>

partial_function (option) rotate :: "api_key list \<Rightarrow> nat \<Rightarrow> nat \<Rightarrow> (error option \<times> nat) option" where
  "rotate ks initial_index cur =
     (if length ks = 0 then Some (Some ZeroDivisionError, cur)
      else if (cur + 1) mod length ks = initial_index
      then (if exhausted (ks ! ((cur + 1) mod length ks))
            then Some (Some AllKeysExhausted, (cur + 1) mod length ks)
            else Some (None, (cur + 1) mod length ks))
      else if \<not> exhausted (ks ! ((cur + 1) mod length ks))
      then Some (None, (cur + 1) mod length ks)
      else rotate ks initial_index ((cur + 1) mod length ks))"

declare rotate.simps [code]

definition mark_current_exhausted :: "GeminiAPIManager \<Rightarrow> (error option \<times> GeminiAPIManager) option" where
  "mark_current_exhausted m =
     (if current_index m \<ge> length (api_keys m) then Some (Some IndexError, m)
      else
        let ks = (api_keys m)[current_index m := (api_keys m ! current_index m)\<lparr>exhausted := True\<rparr>];
            initial_index = current_index m
        in map_option (\<lambda>(e, cur). (e, \<lparr>api_keys = ks, current_index = cur\<rparr>))
             (rotate ks initial_index initial_index))"

text \<open>
  \<open>k\<close> consecutive rate-limit signals: each one calls \<open>mark_current_exhausted\<close>, and the
  first exception ends the run.
\<close>

fun rate_limit_signals :: "nat \<Rightarrow> GeminiAPIManager \<Rightarrow> (error option \<times> GeminiAPIManager) option" where
  "rate_limit_signals 0 m = Some (None, m)"
| "rate_limit_signals (Suc k) m =
     (case mark_current_exhausted m of
        None \<Rightarrow> None
      | Some (Some e, m') \<Rightarrow> Some (Some e, m')
      | Some (None, m') \<Rightarrow> rate_limit_signals k m')"


text \<open>The key list of a pool in which exactly the first \<open>k\<close> keys are exhausted.\<close>

definition pool_flags :: "string list \<Rightarrow> nat \<Rightarrow> api_key list" where
  "pool_flags keys k = map (\<lambda>i. \<lparr>key = keys ! i, exhausted = (i < k)\<rparr>) [0..<length keys]"

lemma length_pool_flags [simp]: "length (pool_flags keys k) = length keys"
  by (simp add: pool_flags_def)

lemma nth_pool_flags [simp]:
  "i < length keys \<Longrightarrow> pool_flags keys k ! i = \<lparr>key = keys ! i, exhausted = (i < k)\<rparr>"
  by (simp add: pool_flags_def)

lemma pool_flags_0: "pool_flags keys 0 = map (\<lambda>k. \<lparr>key = k, exhausted = False\<rparr>) keys"
  by (rule nth_equalityI) simp_all

lemma pool_flags_mark:
  "k < length keys \<Longrightarrow>
   (pool_flags keys k)[k := \<lparr>key = keys ! k, exhausted = True\<rparr>] = pool_flags keys (Suc k)"
  by (rule nth_equalityI) (auto simp: nth_list_update less_Suc_eq)

lemma new_manager_pool:
  "keys \<noteq> [] \<Longrightarrow> new_manager keys = Inr \<lparr>api_keys = pool_flags keys 0, current_index = 0\<rparr>"
  by (simp add: new_manager_def pool_flags_0)

lemma mark_rotates:
  assumes "Suc k < length keys"
  shows "mark_current_exhausted \<lparr>api_keys = pool_flags keys k, current_index = k\<rparr>
           = Some (None, \<lparr>api_keys = pool_flags keys (Suc k), current_index = Suc k\<rparr>)"
proof -
  from assms have k: "k < length keys" by simp
  from assms have "keys \<noteq> []" by auto
  then have "rotate (pool_flags keys (Suc k)) k k = Some (None, Suc k)"
    using assms by (subst rotate.simps) simp
  then show ?thesis
    using k by (simp add: mark_current_exhausted_def Let_def pool_flags_mark)
qed

lemma rotate_all_exhausted:
  assumes "\<forall>i<length ks. exhausted (ks ! i)"
  shows "Suc cur < length ks \<Longrightarrow>
         rotate ks (length ks - 1) cur = Some (Some AllKeysExhausted, length ks - 1)"
proof (induction "length ks - Suc (Suc cur)" arbitrary: cur)
  case 0
  then have "Suc cur = length ks - 1" and "ks \<noteq> []" by auto
  then show ?case
    using assms 0 by (subst rotate.simps) simp
next
  case (Suc d)
  then have lt: "Suc (Suc cur) < length ks" by simp
  have "d = length ks - Suc (Suc (Suc cur))" using Suc(2) by simp
  from Suc(1) [OF this lt]
  have "rotate ks (length ks - 1) (Suc cur) = Some (Some AllKeysExhausted, length ks - 1)" .
  then show ?case
    using assms lt by (subst rotate.simps) auto
qed

lemma mark_last_raises:
  assumes "keys \<noteq> []"
  shows "mark_current_exhausted
           \<lparr>api_keys = pool_flags keys (length keys - 1), current_index = length keys - 1\<rparr>
         = Some (Some AllKeysExhausted,
                 \<lparr>api_keys = pool_flags keys (length keys), current_index = length keys - 1\<rparr>)"
proof -
  let ?n = "length keys"
  let ?ks = "pool_flags keys ?n"
  from assms have n: "0 < ?n" by simp
  have all: "\<forall>i<length ?ks. exhausted (?ks ! i)" by simp
  have r: "rotate ?ks (?n - 1) (?n - 1) = Some (Some AllKeysExhausted, ?n - 1)"
  proof (cases "?n = 1")
    case True
    then show ?thesis by (subst rotate.simps) simp
  next
    case False
    with n have "Suc 0 < length ?ks" by (cases keys) auto
    from rotate_all_exhausted [OF all this]
    have "rotate ?ks (?n - 1) 0 = Some (Some AllKeysExhausted, ?n - 1)" by simp
    moreover from n False have "Suc 0 < ?n" by (cases keys) auto
    ultimately show ?thesis
      using assms by (subst rotate.simps) simp
  qed
  have "(pool_flags keys (?n - 1))[?n - 1 := \<lparr>key = keys ! (?n - 1), exhausted = True\<rparr>]
        = ?ks"
    using pool_flags_mark [of "?n - 1" keys] n by simp
  moreover have "\<not> ?n \<le> ?n - 1" using n by arith
  ultimately show ?thesis
    using r by (simp add: mark_current_exhausted_def Let_def)
qed

lemma signals_rotate:
  "j + k < length keys \<Longrightarrow>
   rate_limit_signals k \<lparr>api_keys = pool_flags keys j, current_index = j\<rparr>
     = Some (None, \<lparr>api_keys = pool_flags keys (j + k), current_index = j + k\<rparr>)"
proof (induction k arbitrary: j)
  case 0
  show ?case by simp
next
  case (Suc k)
  from Suc.prems have "Suc j < length keys" and "Suc j + k < length keys" by simp_all
  then show ?case
    using Suc.IH [of "Suc j"] by (simp add: mark_rotates)
qed

lemma signals_exhaust:
  "j + Suc k = length keys \<Longrightarrow>
   rate_limit_signals (Suc k) \<lparr>api_keys = pool_flags keys j, current_index = j\<rparr>
     = Some (Some AllKeysExhausted,
             \<lparr>api_keys = pool_flags keys (length keys), current_index = length keys - 1\<rparr>)"
proof (induction k arbitrary: j)
  case 0
  then have ne: "keys \<noteq> []" and j: "j = length keys - 1" by auto
  show ?case
    using mark_last_raises [OF ne] by (simp add: j)
next
  case (Suc k)
  let ?P = "\<lparr>api_keys = pool_flags keys j, current_index = j\<rparr>"
  let ?P' = "\<lparr>api_keys = pool_flags keys (Suc j), current_index = Suc j\<rparr>"
  from Suc.prems have lt: "Suc j < length keys" and eq: "Suc j + Suc k = length keys"
    by simp_all
  have "rate_limit_signals (Suc (Suc k)) ?P = rate_limit_signals (Suc k) ?P'"
    by (simp only: rate_limit_signals.simps(2) [of "Suc k" ?P] mark_rotates [OF lt]
        option.case prod.case)
  with Suc.IH [OF eq] show ?case by (simp only:)
qed

text \<open>
  C4. For a pool created from \<open>N \<ge> 1\<close> keys: after \<open>N - 1\<close> rate-limit signals no
  exception was raised, the keys \<open>0 .. N - 2\<close> are exhausted, exactly one key is not
  exhausted and it is the current key (index \<open>N - 1\<close>); the \<open>N\<close>-th signal raises the
  all-keys-exhausted exception, with every key exhausted.
\<close>

theorem credential_pool_exhaustion:
  assumes "new_manager keys = Inr m"
  shows "rate_limit_signals (length keys - 1) m
           = Some (None, \<lparr>api_keys = pool_flags keys (length keys - 1),
                          current_index = length keys - 1\<rparr>) \<and>
         filter (\<lambda>i. \<not> exhausted (pool_flags keys (length keys - 1) ! i)) [0..<length keys]
           = [length keys - 1] \<and>
         rate_limit_signals (length keys) m
           = Some (Some AllKeysExhausted,
                   \<lparr>api_keys = pool_flags keys (length keys), current_index = length keys - 1\<rparr>)"
proof -
  let ?n = "length keys"
  from assms have ne: "keys \<noteq> []"
    by (auto simp: new_manager_def Let_def split: if_splits)
  with assms have m: "m = \<lparr>api_keys = pool_flags keys 0, current_index = 0\<rparr>"
    by (simp add: new_manager_pool)
  from ne have n: "0 < ?n" by simp
  have a: "rate_limit_signals (?n - 1) m
           = Some (None, \<lparr>api_keys = pool_flags keys (?n - 1), current_index = ?n - 1\<rparr>)"
    using signals_rotate [of 0 "?n - 1" keys] n by (simp add: m)
  from n obtain k where k: "?n = Suc k" by (cases "?n") auto
  have "filter (\<lambda>i. \<not> exhausted (pool_flags keys k ! i)) [0..<Suc k]
        = filter (\<lambda>i. i = k) [0..<Suc k]"
    by (rule filter_cong) (auto simp: k)
  also have "\<dots> = [k]"
    by (simp add: filter_empty_conv)
  finally have b: "filter (\<lambda>i. \<not> exhausted (pool_flags keys (?n - 1) ! i)) [0..<?n] = [?n - 1]"
    by (simp add: k)
  have c: "rate_limit_signals ?n m
           = Some (Some AllKeysExhausted,
                   \<lparr>api_keys = pool_flags keys ?n, current_index = ?n - 1\<rparr>)"
    using signals_exhaust [of 0 "?n - 1" keys] n by (simp add: m)
  from a b c show ?thesis by blast
qed


theorem credential_pool_exhaustion_witness:
  "new_manager [''k1'', ''k2'', ''k3'']
     = Inr \<lparr>api_keys = [\<lparr>key = ''k1'', exhausted = False\<rparr>, \<lparr>key = ''k2'', exhausted = False\<rparr>,
                         \<lparr>key = ''k3'', exhausted = False\<rparr>], current_index = 0\<rparr> \<and>
   rate_limit_signals 2
       \<lparr>api_keys = [\<lparr>key = ''k1'', exhausted = False\<rparr>, \<lparr>key = ''k2'', exhausted = False\<rparr>,
                    \<lparr>key = ''k3'', exhausted = False\<rparr>], current_index = 0\<rparr>
     = Some (None,
         \<lparr>api_keys = [\<lparr>key = ''k1'', exhausted = True\<rparr>, \<lparr>key = ''k2'', exhausted = True\<rparr>,
                      \<lparr>key = ''k3'', exhausted = False\<rparr>], current_index = 2\<rparr>) \<and>
   rate_limit_signals 3
       \<lparr>api_keys = [\<lparr>key = ''k1'', exhausted = False\<rparr>, \<lparr>key = ''k2'', exhausted = False\<rparr>,
                    \<lparr>key = ''k3'', exhausted = False\<rparr>], current_index = 0\<rparr>
     = Some (Some AllKeysExhausted,
         \<lparr>api_keys = [\<lparr>key = ''k1'', exhausted = True\<rparr>, \<lparr>key = ''k2'', exhausted = True\<rparr>,
                      \<lparr>key = ''k3'', exhausted = True\<rparr>], current_index = 2\<rparr>)"
proof -
  let ?m = "\<lparr>api_keys = [\<lparr>key = ''k1'', exhausted = False\<rparr>, \<lparr>key = ''k2'', exhausted = False\<rparr>,
                         \<lparr>key = ''k3'', exhausted = False\<rparr>], current_index = 0\<rparr>"
  have h: "new_manager [''k1'', ''k2'', ''k3''] = Inr ?m"
    by (simp add: new_manager_def)
  have p2: "pool_flags [''k1'', ''k2'', ''k3''] 2
      = [\<lparr>key = ''k1'', exhausted = True\<rparr>, \<lparr>key = ''k2'', exhausted = True\<rparr>,
         \<lparr>key = ''k3'', exhausted = False\<rparr>]"
    by code_simp
  have p3: "pool_flags [''k1'', ''k2'', ''k3''] 3
      = [\<lparr>key = ''k1'', exhausted = True\<rparr>, \<lparr>key = ''k2'', exhausted = True\<rparr>,
         \<lparr>key = ''k3'', exhausted = True\<rparr>]"
    by code_simp
  have len: "length [''k1'', ''k2'', ''k3''] = 3" by simp
  have len1: "(3::nat) - 1 = 2" by simp
  note t = credential_pool_exhaustion [OF h, unfolded len len1 p2 p3]
  from h t show ?thesis by blast
qed


section \<open>Python values\<close>

text \<open>
  The values the pipeline keeps in memory and writes to its checkpoint are what
  \<open>json.loads\<close> produces: \<open>None\<close>, booleans, numbers, strings, lists and dictionaries
  with string keys (in insertion order). A fact is the dictionary
  \<open>{"fact": ..., "source": ...}\<close> built by the extractor.
\<close>

datatype json = JNull | JBool bool | JInt int | JFloat real | JString string
  | JList "json list" | JObject "(string \<times> json) list"

type_synonym fact = json

section \<open>Per-step quality-convergence loop (main.py, \<open>_execute_step\<close>)\<close>

text \<open>
  The evaluation returned by \<open>evaluate_research_quality\<close>: the evaluator reads
  \<open>overall_score\<close> and \<open>threshold_met\<close> itself and falls back to its default evaluation
  when they are missing, so both are always present; a missing, null or empty
  \<open>missing_aspects\<close> is the empty list. Scores are Python floats: a score is the real
  number its double is, and the comparison of two doubles is the comparison of these
  numbers.
\<close>

record evaluation =
  overall_score :: real
  threshold_met :: bool
  missing_aspects :: "string list"

text \<open>
  The external capabilities the loop calls. \<open>execute_queries i qs objective\<close> stands for
  the parallel execution of the queries of iteration \<open>i\<close> (search, fetch, extract): it
  yields the facts appended to the shared fact list and the sources appended to
  \<open>step_sources\<close> by the time all query futures have completed. \<open>float_sub a b\<close> is
  Python's \<open>a - b\<close> on floats, the exact difference rounded to a double.
\<close>

record world =
  identify_knowledge_gaps :: "string \<Rightarrow> fact list \<Rightarrow> string list \<Rightarrow> string list \<Rightarrow> string list"
  execute_queries :: "nat \<Rightarrow> string list \<Rightarrow> string \<Rightarrow> fact list \<times> string list"
  evaluate_research_quality :: "string \<Rightarrow> fact list \<Rightarrow> string list \<Rightarrow> nat \<Rightarrow> evaluation"
  float_sub :: "real \<Rightarrow> real \<Rightarrow> real"

text \<open>
  \<open>self.all_collected_facts\<close>, the fact list shared by the whole pipeline, and on top of
  it the variables of \<open>_execute_step\<close>. \<open>last_evaluation\<close> is \<open>None\<close> while the local
  variable is unbound. \<open>quality_scores\<close> is the list
  \<open>self.metrics.metrics['quality_scores'][step_number]\<close>.
\<close>

record fact_store =
  all_collected_facts :: "fact list"

record step_state = fact_store +
  iteration :: nat
  quality_met :: bool
  last_evaluation :: "evaluation option"
  all_queries_tried :: "string list"
  step_sources :: "string list"
  quality_scores :: "real list"
  query_refinements :: nat

definition max_queries_per_step :: nat where
  "max_queries_per_step = 5"

definition max_iterations_per_step :: nat where
  "max_iterations_per_step = 3"

text \<open>
  Modelled from the spec: \<open>MetricsTracker.record_iteration\<close> (utils/metrics_tracker.py is
  not among the sources). The spec has the score of every iteration recorded, and the loop
  reads the score of the previous iteration at index \<open>-2\<close> right after recording the
  current one: \<open>record_iteration\<close> appends the score to the list of the step.
\<close>

definition record_iteration :: "real \<Rightarrow> real list \<Rightarrow> real list" where
  "record_iteration score scores = scores @ [score]"

text \<open>
  How a pass of the loop body ends: with \<open>continue\<close> or at its end, with \<open>break\<close>, or
  with an exception; each with the state it leaves.
\<close>

datatype 'a control = Continue 'a | Break 'a | Raise error 'a

fun state_of :: "'a control \<Rightarrow> 'a" where
  "state_of (Continue s) = s"
| "state_of (Break s) = s"
| "state_of (Raise e s) = s"

text \<open>
  The choice of the queries of an iteration (the \<open>if iteration == 1 ... else ...\<close>
  block). \<open>NoRefinement\<close> is either of its two \<open>break\<close>s; \<open>Unbound\<close> is the read of an
  unbound \<open>last_evaluation\<close>.
\<close>

datatype query_choice = Queries "string list" | NoRefinement | Unbound

definition current_queries_for :: "world \<Rightarrow> step \<Rightarrow> nat \<Rightarrow> step_state \<Rightarrow> query_choice" where
  "current_queries_for w step step_facts_start st =
     (if iteration st = 1 then Queries (search_queries step)
      else
        (case last_evaluation st of
           None \<Rightarrow> Unbound
         | Some last_ev \<Rightarrow>
             if missing_aspects last_ev = [] then NoRefinement
             else
               (let step_facts = drop step_facts_start (all_collected_facts st);
                    refined_queries =
                      identify_knowledge_gaps w (action step) step_facts
                        (missing_aspects last_ev) (all_queries_tried st)
                in if refined_queries = [] then NoRefinement else Queries refined_queries)))"

text \<open>
  The double that the literal \<open>0.05\<close> denotes: \<open>3602879701896397 / 2 ^ 56\<close>, slightly
  above one twentieth.
\<close>

definition float_0_05 :: real where
  "float_0_05 = 3602879701896397 / 72057594037927936"

text \<open>
  The second half of the loop body, after the queries of the iteration have run: the
  zero-fact branch (which ends in \<open>continue\<close>), the evaluation, the threshold check and
  the diminishing-returns check. \<open>quality_scores[-2]\<close> raises \<open>IndexError\<close> on a list
  shorter than two.
\<close>

definition evaluate_iteration :: "world \<Rightarrow> step \<Rightarrow> nat \<Rightarrow> step_state \<Rightarrow> step_state control" where
  "evaluate_iteration w step step_facts_start st =
     (let step_facts = drop step_facts_start (all_collected_facts st) in
      if step_facts = [] then
        Continue (st\<lparr>last_evaluation :=
                        Some \<lparr>overall_score = 0, threshold_met = False,
                              missing_aspects = [''No data collected'']\<rparr>,
                     quality_scores := record_iteration 0 (quality_scores st)\<rparr>)
      else
        (let ev = evaluate_research_quality w (action step) step_facts (step_sources st)
                    (iteration st);
             quality_score = overall_score ev;
             st' = st\<lparr>last_evaluation := Some ev,
                       quality_scores := record_iteration quality_score (quality_scores st)\<rparr>
         in if threshold_met ev then Break (st'\<lparr>quality_met := True\<rparr>)
            else if iteration st' > 1 then
              (if length (quality_scores st') < 2 then Raise IndexError st'
               else
                 (let previous_score = quality_scores st' ! (length (quality_scores st') - 2);
                      improvement = float_sub w quality_score previous_score
                  in if improvement < float_0_05 then Break st' else Continue st'))
            else Continue st'))"

text \<open>
  One pass of the \<open>while\<close> body. \<open>ThreadPoolExecutor(max_workers=0)\<close> raises
  \<open>ValueError\<close>, which happens when there is no query to run.
\<close>

definition loop_body :: "world \<Rightarrow> step \<Rightarrow> nat \<Rightarrow> step_state \<Rightarrow> step_state control" where
  "loop_body w step step_facts_start st0 =
     (let st = st0\<lparr>iteration := iteration st0 + 1\<rparr> in
      case current_queries_for w step step_facts_start st of
        Unbound \<Rightarrow> Raise NameError st
      | NoRefinement \<Rightarrow> Break st
      | Queries current_queries \<Rightarrow>
          (let st = (if iteration st = 1 then st
                     else st\<lparr>query_refinements := query_refinements st + 1\<rparr>);
               qs = take max_queries_per_step current_queries
           in if min (length qs) 3 = 0 then Raise ValueError st
              else
                (let (new_facts, new_sources) =
                       execute_queries w (iteration st) qs (action step);
                     st = st\<lparr>all_queries_tried := all_queries_tried st @ qs,
                              all_collected_facts := all_collected_facts st @ new_facts,
                              step_sources := step_sources st @ new_sources\<rparr>
                 in evaluate_iteration w step step_facts_start st)))"

lemma evaluate_iteration_iteration:
  "iteration (state_of (evaluate_iteration w step start st)) = iteration st"
  by (simp add: evaluate_iteration_def Let_def)

lemma loop_body_iteration:
  "iteration (state_of (loop_body w step start st)) = Suc (iteration st)"
  by (simp add: loop_body_def Let_def evaluate_iteration_iteration
      split: query_choice.split prod.split)

function step_loop :: "world \<Rightarrow> step \<Rightarrow> nat \<Rightarrow> step_state \<Rightarrow> error option \<times> step_state" where
  "step_loop w step step_facts_start st =
     (if iteration st < max_iterations_per_step \<and> \<not> quality_met st
      then (case loop_body w step step_facts_start st of
              Continue st' \<Rightarrow> step_loop w step step_facts_start st'
            | Break st' \<Rightarrow> (None, st')
            | Raise e st' \<Rightarrow> (Some e, st'))
      else (None, st))"
  by pat_completeness auto
termination
  apply (relation "measure (\<lambda>(w, step, start, st). max_iterations_per_step - iteration st)")
   apply simp
  subgoal for w step start st st'
    using loop_body_iteration [of w step start st] by auto
  done

text \<open>
  \<open>_execute_step\<close> up to the end of the loop: \<open>facts\<close> is the shared fact list and
  \<open>scores\<close> the list of recorded scores of this step when the step starts.
\<close>

definition execute_step :: "world \<Rightarrow> step \<Rightarrow> fact list \<Rightarrow> real list \<Rightarrow> error option \<times> step_state" where
  "execute_step w step facts scores =
     step_loop w step (length facts)
       \<lparr>all_collected_facts = facts,
        iteration = 0, quality_met = False, last_evaluation = None,
        all_queries_tried = [], step_sources = [],
        quality_scores = scores, query_refinements = 0\<rparr>"

declare step_loop.simps [simp del]

lemma step_loop_bound:
  "iteration st \<le> max_iterations_per_step \<Longrightarrow>
   iteration (snd (step_loop w step start st)) \<le> max_iterations_per_step"
proof (induction w step start st rule: step_loop.induct)
  case (1 w step start st)
  show ?case
  proof (cases "iteration st < max_iterations_per_step \<and> \<not> quality_met st")
    case False
    then show ?thesis using "1.prems" by (subst step_loop.simps) auto
  next
    case True
    have it: "iteration (state_of (loop_body w step start st)) \<le> max_iterations_per_step"
      using True by (simp add: loop_body_iteration)
    show ?thesis
    proof (cases "loop_body w step start st")
      case (Continue st')
      with it have "iteration st' \<le> max_iterations_per_step" by simp
      from "1.IH" [OF True Continue this] show ?thesis
        using True Continue by (subst step_loop.simps) simp
    next
      case (Break st')
      with it show ?thesis using True by (subst step_loop.simps) simp
    next
      case (Raise e st')
      with it show ?thesis using True by (subst step_loop.simps) simp
    qed
  qed
qed

text \<open>
  A world in which no query ever yields a fact. No score other than 0.0 occurs in it, and
  \<open>0.0 - 0.0\<close> is exact.
\<close>

definition no_facts_world :: world where
  "no_facts_world =
     \<lparr>identify_knowledge_gaps = (\<lambda>objective facts missing previous. [''refined query'']),
      execute_queries = (\<lambda>i qs objective. ([], [])),
      evaluate_research_quality = (\<lambda>objective facts sources i.
         \<lparr>overall_score = 0, threshold_met = False, missing_aspects = []\<rparr>),
      float_sub = (\<lambda>a b. a - b)\<rparr>"


text \<open>
  C3. The iteration counter of \<open>_execute_step\<close> never exceeds
  \<open>max_iterations_per_step = 3\<close>, whatever the evaluations, the facts collected and the
  refined queries are; the counter is incremented once per pass of the loop body, so the
  loop runs at most three passes.
\<close>

theorem step_iterations_bounded:
  "iteration (snd (execute_step w step facts scores)) \<le> max_iterations_per_step \<and>
   max_iterations_per_step = 3"
  using step_loop_bound [of _ w step "length facts"]
  by (simp add: execute_step_def max_iterations_per_step_def)

theorem step_iterations_bounded_witness:
  "iteration (snd (execute_step no_facts_world (mk_step 1 ''Find A'') [] [])) \<le> 3 \<and>
   iteration (snd (execute_step no_facts_world (mk_step 1 ''Find A'') [] [])) = 3"
proof -
  have "iteration (snd (execute_step no_facts_world (mk_step 1 ''Find A'') [] [])) = 3"
    by code_simp
  moreover have "iteration (snd (execute_step no_facts_world (mk_step 1 ''Find A'') [] [])) \<le> 3"
    using step_iterations_bounded [of no_facts_world "mk_step 1 ''Find A''" "[]" "[]"]
    by (simp only:)
  ultimately show ?thesis by simp
qed










text \<open>
  A world whose evaluator scores 0.25 in iteration 1 and 0.28125 afterwards. Both scores
  and their difference 0.03125 are doubles, so the float subtraction is exact on them.
\<close>

definition slow_progress_world :: world where
  "slow_progress_world =
     \<lparr>identify_knowledge_gaps = (\<lambda>objective facts missing previous. [''refined query'']),
      execute_queries = (\<lambda>i qs objective. ([JString ''a fact''], [''http://example.com/''])),
      evaluate_research_quality = (\<lambda>objective facts sources i.
         \<lparr>overall_score = (if i = 1 then 1 / 4 else 9 / 32), threshold_met = False,
          missing_aspects = [''code examples'']\<rparr>),
      float_sub = (\<lambda>a b. a - b)\<rparr>"

definition after_first_iteration :: step_state where
  "after_first_iteration =
     \<lparr>all_collected_facts = [JString ''a fact''],
      iteration = 1, quality_met = False,
      last_evaluation = Some \<lparr>overall_score = 1 / 4, threshold_met = False,
                               missing_aspects = [''code examples'']\<rparr>,
      all_queries_tried = [''Find A''],
      step_sources = [''http://example.com/''], quality_scores = [1 / 4],
      query_refinements = 0\<rparr>"


lemma slow_progress_first_iteration:
  "loop_body slow_progress_world (mk_step 1 ''Find A'') 0
       \<lparr>all_collected_facts = [],
        iteration = 0, quality_met = False, last_evaluation = None,
        all_queries_tried = [], step_sources = [],
        quality_scores = [], query_refinements = 0\<rparr> = Continue after_first_iteration"
  by code_simp

text \<open>The states of \<open>no_facts_world\<close> after its first and its second iteration.\<close>

definition zero_after_first :: step_state where
  "zero_after_first =
     \<lparr>all_collected_facts = [],
      iteration = 1, quality_met = False,
      last_evaluation = Some \<lparr>overall_score = 0, threshold_met = False,
                               missing_aspects = [''No data collected'']\<rparr>,
      all_queries_tried = [''Find A''],
      step_sources = [], quality_scores = [0],
      query_refinements = 0\<rparr>"


lemma no_facts_first_iteration:
  "loop_body no_facts_world (mk_step 1 ''Find A'') 0
       \<lparr>all_collected_facts = [],
        iteration = 0, quality_met = False, last_evaluation = None,
        all_queries_tried = [], step_sources = [],
        quality_scores = [], query_refinements = 0\<rparr> = Continue zero_after_first"
  by code_simp



text \<open>
  The rounding of the subtraction decides the check. The doubles \<open>0.004\<close> and \<open>0.054\<close>
  differ by less than the double \<open>0.05\<close>, but the double nearest to their difference is
  \<open>0.05\<close> itself: where Python computes \<open>0.054 - 0.004 == 0.05\<close>, the check
  \<open>improvement < 0.05\<close> fails and the loop goes on to iteration 3. The only other
  subtraction of the run, \<open>0.054 - 0.054\<close>, is exact.
\<close>

definition float_0_004 :: real where
  "float_0_004 = 1152921504606847 / 288230376151711744"

definition float_0_054 :: real where
  "float_0_054 = 7782220156096217 / 144115188075855872"

definition rounding_world :: world where
  "rounding_world =
     \<lparr>identify_knowledge_gaps = (\<lambda>objective facts missing previous. [''refined query'']),
      execute_queries = (\<lambda>i qs objective. ([JString ''a fact''], [''http://example.com/''])),
      evaluate_research_quality = (\<lambda>objective facts sources i.
         \<lparr>overall_score = (if i = 1 then float_0_004 else float_0_054), threshold_met = False,
          missing_aspects = [''code examples'']\<rparr>),
      float_sub = (\<lambda>a b. if a = float_0_054 \<and> b = float_0_004 then float_0_05 else a - b)\<rparr>"

lemma rounded_difference_continues:
  "float_0_054 - float_0_004 < float_0_05 \<and>
   float_sub rounding_world float_0_054 float_0_004 = float_0_05 \<and>
   quality_scores (snd (execute_step rounding_world (mk_step 1 ''Find A'') [] []))
     = [float_0_004, float_0_054, float_0_054] \<and>
   iteration (snd (execute_step rounding_world (mk_step 1 ''Find A'') [] [])) = 3"
proof -
  have a: "float_0_054 - float_0_004 < float_0_05"
    by (simp add: float_0_054_def float_0_004_def float_0_05_def)
  have b: "float_sub rounding_world float_0_054 float_0_004 = float_0_05"
    by (simp add: rounding_world_def)
  have c: "quality_scores (snd (execute_step rounding_world (mk_step 1 ''Find A'') [] []))
     = [float_0_004, float_0_054, float_0_054]"
    by code_simp
  have d: "iteration (snd (execute_step rounding_world (mk_step 1 ''Find A'') [] [])) = 3"
    by code_simp
  from a b c d show ?thesis by blast
qed


section \<open>Source cache (utils/source_cache.py, \<open>SourceCache\<close>)\<close>

text \<open>
  A stored timestamp is the string written by \<open>datetime.now().isoformat()\<close>. \<open>Iso t\<close>
  is a string that \<open>datetime.fromisoformat\<close> parses to the naive time \<open>t\<close>, in
  microseconds; \<open>Unparsable\<close> is any string on which the parse or the subtraction from
  \<open>datetime.now()\<close> raises. An index entry read back from disk may lack its
  \<open>timestamp\<close> key (\<open>None\<close>).
\<close>

datatype timestamp = Iso int | Unparsable string

record cache_entry =
  entry_url :: string
  entry_timestamp :: "timestamp option"
  size_bytes :: nat

text \<open>
  What the cache takes from its environment: the MD5 digest, the clock, and whether the
  operating system fails the write of a content file, the write of the index file, the
  read of a content file or the removal of a content file. A failing call raises before
  it changes the disk.
\<close>

record os_env =
  md5_hexdigest :: "string \<Rightarrow> string"
  now :: int
  content_write_fails :: bool
  index_write_fails :: bool
  content_read_fails :: bool
  remove_fails :: bool

text \<open>
  The cache object with the files it owns: \<open>cache_index\<close> is the dictionary in memory,
  \<open>index_file\<close> the content of \<open>cache_index.json\<close> (\<open>None\<close> when there is no readable
  file), \<open>cache_files\<close> the content files \<open><key>.txt\<close> by cache key.
\<close>

record SourceCache =
  cache_ttl_hours :: int
  cache_index :: "string \<rightharpoonup> cache_entry"
  index_file :: "(string \<rightharpoonup> cache_entry) option"
  cache_files :: "string \<rightharpoonup> string"
  hits :: nat
  misses :: nat

text \<open>\<open>timedelta(hours=cache_ttl_hours)\<close>, in microseconds.\<close>

definition cache_ttl :: "SourceCache \<Rightarrow> int" where
  "cache_ttl c = cache_ttl_hours c * 3600 * 1000000"

text \<open>\<open>_save_cache_index\<close>: a failure is caught and printed.\<close>

definition save_cache_index :: "os_env \<Rightarrow> SourceCache \<Rightarrow> SourceCache" where
  "save_cache_index env c =
     (if index_write_fails env then c else c\<lparr>index_file := Some (cache_index c)\<rparr>)"

definition get_cache_key :: "os_env \<Rightarrow> string \<Rightarrow> string" where
  "get_cache_key env url = md5_hexdigest env url"

text \<open>\<open>_is_expired\<close>: \<open>now - cached_time > cache_ttl\<close>, and \<open>True\<close> on any exception.\<close>

definition is_expired :: "os_env \<Rightarrow> SourceCache \<Rightarrow> timestamp \<Rightarrow> bool" where
  "is_expired env c timestamp_str =
     (case timestamp_str of
        Iso cached_time \<Rightarrow> now env - cached_time > cache_ttl c
      | Unparsable s \<Rightarrow> True)"

text \<open>\<open>remove\<close>: \<open>os.path.exists\<close> is the test \<open>cache_files c1 cache_key \<noteq> None\<close>.\<close>

definition remove :: "os_env \<Rightarrow> string \<Rightarrow> SourceCache \<Rightarrow> SourceCache" where
  "remove env url c =
     (let cache_key = get_cache_key env url;
          c1 = (if cache_key \<in> dom (cache_index c)
                then save_cache_index env (c\<lparr>cache_index := (cache_index c)(cache_key := None)\<rparr>)
                else c)
      in if cache_files c1 cache_key \<noteq> None
         then (if remove_fails env then c1
               else c1\<lparr>cache_files := (cache_files c1)(cache_key := None)\<rparr>)
         else c1)"

text \<open>\<open>get\<close> returns the content (or \<open>None\<close>) and the cache as it leaves it;
  \<open>entry['timestamp']\<close> raises \<open>KeyError\<close> on an entry without the key.\<close>

definition get :: "os_env \<Rightarrow> string \<Rightarrow> SourceCache \<Rightarrow> (error + string option) \<times> SourceCache" where
  "get env url c =
     (let cache_key = get_cache_key env url in
      case cache_index c cache_key of
        None \<Rightarrow> (Inr None, c\<lparr>misses := misses c + 1\<rparr>)
      | Some entry \<Rightarrow>
          (case entry_timestamp entry of
             None \<Rightarrow> (Inl KeyError, c)
           | Some ts \<Rightarrow>
               if is_expired env c ts
               then (Inr None, remove env url (c\<lparr>misses := misses c + 1\<rparr>))
               else
                 (case cache_files c cache_key of
                    Some content \<Rightarrow>
                      if content_read_fails env then (Inr None, c\<lparr>misses := misses c + 1\<rparr>)
                      else (Inr (Some content), c\<lparr>hits := hits c + 1\<rparr>)
                  | None \<Rightarrow> (Inr None, c\<lparr>misses := misses c + 1\<rparr>))))"

text \<open>\<open>put\<close>: \<open>if not content: return\<close>, then the write of the content file, the index
  entry and the save of the index, inside one \<open>try\<close>.\<close>

definition put :: "os_env \<Rightarrow> string \<Rightarrow> string \<Rightarrow> SourceCache \<Rightarrow> SourceCache" where
  "put env url content c =
     (if content = [] then c
      else
        (let cache_key = get_cache_key env url in
         if content_write_fails env then c
         else
           save_cache_index env
             (c\<lparr>cache_files := (cache_files c)(cache_key \<mapsto> content),
                cache_index := (cache_index c)(cache_key \<mapsto>
                   \<lparr>entry_url = url, entry_timestamp = Some (Iso (now env)),
                    size_bytes = length content\<rparr>)\<rparr>)))"

text \<open>\<open>should_cache\<close>: \<open>any(domain in url.lower() for domain in cache_worthy_domains)\<close>.\<close>

definition cache_worthy_domains :: "string list" where
  "cache_worthy_domains =
     [''github.com'', ''docs.'', ''documentation.'',
      ''.edu'', ''.gov'', ''.org'',
      ''arxiv.org'', ''wikipedia.org'',
      ''stackoverflow.com'', ''python.org'',
      ''ai.google.dev'', ''cloud.google.com'',
      ''openai.com'', ''anthropic.com'',
      ''huggingface.co'', ''paperswithcode.com'']"

definition should_cache :: "string \<Rightarrow> bool" where
  "should_cache url = list_ex (\<lambda>domain. substring_of domain (lower url)) cache_worthy_domains"

text \<open>\<open>str.endswith\<close>.\<close>

definition ends_with :: "string \<Rightarrow> string \<Rightarrow> bool" where
  "ends_with suffix s = starts_with (rev suffix) (rev s)"

definition truthy :: "string option \<Rightarrow> bool" where
  "truthy s = (case s of None \<Rightarrow> False | Some t \<Rightarrow> t \<noteq> [])"

text \<open>
  \<open>_is_pdf_url\<close> and \<open>scrape_with_timeout\<close> (modules/scraper.py). \<open>scrape_worker url t\<close>
  is what the worker returns within \<open>t\<close> seconds (\<open>None\<close> on a timeout or a failure);
  \<open>url.lower()\<close> raises \<open>AttributeError\<close> when the URL is \<open>None\<close>.
\<close>

definition is_pdf_url :: "string \<Rightarrow> bool" where
  "is_pdf_url url = (ends_with ''.pdf'' (lower url) \<or> substring_of ''.pdf?'' (lower url))"

definition scrape_with_timeout ::
  "(string \<Rightarrow> nat \<Rightarrow> string option) \<Rightarrow> string option \<Rightarrow> nat \<Rightarrow> error + string option" where
  "scrape_with_timeout scrape_worker url_arg timeout =
     (case url_arg of
        None \<Rightarrow> Inl AttributeError
      | Some url \<Rightarrow>
          (let timeout = (if is_pdf_url url then max (timeout * 3) 20 else timeout)
           in Inr (scrape_worker url timeout)))"

text \<open>
  The part of \<open>_process_url\<close> (main.py) that obtains the content of a URL, for a system
  whose cache is enabled: the cache is read and written only behind \<open>should_cache(url)\<close>.
  \<open>url.lower()\<close> raises \<open>AttributeError\<close> on a search result without a link.
\<close>

definition process_url_content ::
  "os_env \<Rightarrow> (string \<Rightarrow> nat \<Rightarrow> string option) \<Rightarrow> string option \<Rightarrow> SourceCache
     \<Rightarrow> (error + string option) \<times> SourceCache" where
  "process_url_content env scrape_worker url_arg c =
     (case url_arg of
        None \<Rightarrow> (Inl AttributeError, c)
      | Some url \<Rightarrow>
         (let is_pdf = (ends_with ''.pdf'' (lower url) \<or> substring_of ''.pdf?'' (lower url));
              r = (if should_cache url then get env url c else (Inr None, c))
          in case r of
               (Inl e, c1) \<Rightarrow> (Inl e, c1)
             | (Inr cached, c1) \<Rightarrow>
                 if truthy cached then (Inr cached, c1)
                 else
                   (let timeout = (if is_pdf then 20 else 7) in
                    case scrape_with_timeout scrape_worker (Some url) timeout of
                      Inl e \<Rightarrow> (Inl e, c1)
                    | Inr None \<Rightarrow> (Inr None, c1)
                    | Inr (Some scraped_content) \<Rightarrow>
                        if scraped_content \<noteq> [] \<and> should_cache url
                        then (Inr (Some scraped_content), put env url scraped_content c1)
                        else (Inr (Some scraped_content), c1))))"

lemma starts_with_iff: "starts_with k s \<longleftrightarrow> (\<exists>post. s = k @ post)"
  by (induction k s rule: starts_with.induct) auto

lemma substring_of_iff: "substring_of k s \<longleftrightarrow> (\<exists>pre post. s = pre @ k @ post)"
proof (induction s)
  case Nil
  show ?case by auto
next
  case (Cons c s)
  show ?case
  proof
    assume "substring_of k (c # s)"
    then consider "starts_with k (c # s)" | "substring_of k s" by auto
    then show "\<exists>pre post. c # s = pre @ k @ post"
    proof cases
      case 1
      then obtain post where "c # s = k @ post" by (auto simp: starts_with_iff)
      then have "c # s = [] @ k @ post" by simp
      then show ?thesis by blast
    next
      case 2
      with Cons.IH obtain pre post where "s = pre @ k @ post" by auto
      then have "c # s = (c # pre) @ k @ post" by simp
      then show ?thesis by blast
    qed
  next
    assume "\<exists>pre post. c # s = pre @ k @ post"
    then obtain pre post where eq: "c # s = pre @ k @ post" by blast
    show "substring_of k (c # s)"
    proof (cases pre)
      case Nil
      with eq have "starts_with k (c # s)" by (auto simp: starts_with_iff)
      then show ?thesis by simp
    next
      case (Cons p pre')
      with eq have "s = pre' @ k @ post" by simp
      with Cons.IH have "substring_of k s" by blast
      then show ?thesis by simp
    qed
  qed
qed

lemma cache_worthy_domains_lower: "domain \<in> set cache_worthy_domains \<Longrightarrow> lower domain = domain"
  unfolding cache_worthy_domains_def lower_def lower_char_def by auto

definition default_cache_ttl_hours :: int where
  "default_cache_ttl_hours = 24"

text \<open>\<open>__init__\<close>: the index is loaded from the index file, or is empty without one.\<close>

definition init_source_cache ::
  "int \<Rightarrow> (string \<rightharpoonup> cache_entry) option \<Rightarrow> (string \<rightharpoonup> string) \<Rightarrow> SourceCache" where
  "init_source_cache ttl_hours disk_index disk_files =
     \<lparr>cache_ttl_hours = ttl_hours,
      cache_index = (case disk_index of None \<Rightarrow> Map.empty | Some idx \<Rightarrow> idx),
      index_file = disk_index, cache_files = disk_files, hits = 0, misses = 0\<rparr>"

definition example_env :: os_env where
  "example_env =
     \<lparr>md5_hexdigest = (\<lambda>url. ''md5:'' @ url), now = 90000000000,
      content_write_fails = False, index_write_fails = False,
      content_read_fails = False, remove_fails = False\<rparr>"

definition empty_cache :: SourceCache where
  "empty_cache = init_source_cache default_cache_ttl_hours None Map.empty"

definition stale_entry :: cache_entry where
  "stale_entry =
     \<lparr>entry_url = ''https://docs.python.org/3/'', entry_timestamp = Some (Iso 0),
      size_bytes = 11\<rparr>"

definition stale_cache :: SourceCache where
  "stale_cache =
     init_source_cache default_cache_ttl_hours
       (Some [''md5:https://docs.python.org/3/'' \<mapsto> stale_entry])
       [''md5:https://docs.python.org/3/'' \<mapsto> ''old content'']"

text \<open>
  C6, as amended. \<open>put(url, content)\<close> leaves the cache unchanged when the content is
  empty; with non-empty content it stores the content file and the index entry (when the
  write succeeds), whatever \<open>should_cache(url)\<close> says. The gate on \<open>should_cache\<close> is in
  the caller: \<open>_process_url\<close> leaves the cache unchanged for a URL for which
  \<open>should_cache(url)\<close> is false.
\<close>

theorem put_stores_nonempty_content:
  "(content = [] \<longrightarrow> put env url content c = c) \<and>
   (content \<noteq> [] \<and> \<not> content_write_fails env \<longrightarrow>
      cache_files (put env url content c) (get_cache_key env url) = Some content \<and>
      cache_index (put env url content c) (get_cache_key env url)
        = Some \<lparr>entry_url = url, entry_timestamp = Some (Iso (now env)),
                 size_bytes = length content\<rparr>) \<and>
   (\<not> should_cache url \<longrightarrow>
      snd (process_url_content env scrape_worker (Some url) c) = c)"
  by (auto simp: put_def save_cache_index_def process_url_content_def truthy_def Let_def
      scrape_with_timeout_def split: option.splits)

theorem put_stores_nonempty_content_witness:
  "put example_env ''https://docs.python.org/3/'' [] empty_cache = empty_cache \<and>
   ''content'' \<noteq> [] \<and> \<not> content_write_fails example_env \<and>
   cache_files (put example_env ''https://docs.python.org/3/'' ''content'' empty_cache)
     (get_cache_key example_env ''https://docs.python.org/3/'') = Some ''content'' \<and>
   \<not> should_cache ''http://example.com/page'' \<and>
   snd (process_url_content example_env (\<lambda>url timeout. Some ''content'')
          (Some ''http://example.com/page'') empty_cache) = empty_cache"
proof -
  have h1: "''content'' \<noteq> [] \<and> \<not> content_write_fails example_env"
    by (simp add: example_env_def)
  have h2: "\<not> should_cache ''http://example.com/page''" by code_simp
  have a: "put example_env ''https://docs.python.org/3/'' [] empty_cache = empty_cache"
    using put_stores_nonempty_content
      [of "[]" example_env "''https://docs.python.org/3/''" empty_cache]
    by simp
  have b: "cache_files (put example_env ''https://docs.python.org/3/'' ''content'' empty_cache)
     (get_cache_key example_env ''https://docs.python.org/3/'') = Some ''content''"
    using h1 put_stores_nonempty_content
      [of "''content''" example_env "''https://docs.python.org/3/''" empty_cache]
    by blast
  have c: "snd (process_url_content example_env (\<lambda>url timeout. Some ''content'')
          (Some ''http://example.com/page'') empty_cache) = empty_cache"
    using h2 put_stores_nonempty_content
      [of _ example_env "''http://example.com/page''" empty_cache
          "\<lambda>url timeout. Some ''content''"]
    by blast
  from a b c h1 h2 show ?thesis by blast
qed

text \<open>
  C6 as stated fails: \<open>put\<close> does not consult \<open>should_cache\<close>. For a URL that is not
  cache-worthy it stores the content file and the index entry in a cache that had neither.
\<close>

theorem put_ignores_should_cache:
  "\<not> should_cache ''http://example.com/page'' \<and>
   cache_files empty_cache (get_cache_key example_env ''http://example.com/page'') = None \<and>
   cache_index empty_cache (get_cache_key example_env ''http://example.com/page'') = None \<and>
   cache_files (put example_env ''http://example.com/page'' ''content'' empty_cache)
      (get_cache_key example_env ''http://example.com/page'') = Some ''content'' \<and>
   cache_index (put example_env ''http://example.com/page'' ''content'' empty_cache)
      (get_cache_key example_env ''http://example.com/page'')
     = Some \<lparr>entry_url = ''http://example.com/page'', entry_timestamp = Some (Iso 90000000000),
              size_bytes = 7\<rparr>"
proof -
  have "\<not> should_cache ''http://example.com/page''" by code_simp
  then show ?thesis
    by (simp add: put_def save_cache_index_def example_env_def empty_cache_def
        init_source_cache_def get_cache_key_def Let_def)
qed

text \<open>
  C7. If the index entry of a URL has a timestamp more than the TTL (in hours, 24 by
  default) before the current time, \<open>get(url)\<close> returns \<open>None\<close>, whether or not the
  content file exists; it counts a miss, removes the entry from the index (and from the
  index file, when the operating system performs the write) and deletes the content file
  (when the operating system performs the removal).
\<close>

theorem expired_entry_evicted:
  assumes "cache_index c (get_cache_key env url) = Some entry"
    and "entry_timestamp entry = Some (Iso cached_time)"
    and "now env - cached_time > cache_ttl_hours c * 3600 * 1000000"
  shows "fst (get env url c) = Inr None \<and>
         cache_index (snd (get env url c)) (get_cache_key env url) = None \<and>
         (\<not> remove_fails env \<longrightarrow>
            cache_files (snd (get env url c)) (get_cache_key env url) = None) \<and>
         (\<not> index_write_fails env \<longrightarrow>
            index_file (snd (get env url c)) = Some (cache_index (snd (get env url c)))) \<and>
         misses (snd (get env url c)) = misses c + 1"
  using assms
  by (auto simp: get_def remove_def save_cache_index_def is_expired_def cache_ttl_def Let_def
      split: option.splits)

theorem expired_entry_evicted_witness:
  "cache_index stale_cache (get_cache_key example_env ''https://docs.python.org/3/'')
     = Some stale_entry \<and>
   entry_timestamp stale_entry = Some (Iso 0) \<and>
   now example_env - 0 > cache_ttl_hours stale_cache * 3600 * 1000000 \<and>
   cache_ttl_hours stale_cache = 24 \<and>
   cache_files stale_cache (get_cache_key example_env ''https://docs.python.org/3/'')
     = Some ''old content'' \<and>
   \<not> remove_fails example_env \<and>
   fst (get example_env ''https://docs.python.org/3/'' stale_cache) = Inr None \<and>
   cache_index (snd (get example_env ''https://docs.python.org/3/'' stale_cache))
     (get_cache_key example_env ''https://docs.python.org/3/'') = None \<and>
   cache_files (snd (get example_env ''https://docs.python.org/3/'' stale_cache))
     (get_cache_key example_env ''https://docs.python.org/3/'') = None"
proof -
  have h1: "cache_index stale_cache (get_cache_key example_env ''https://docs.python.org/3/'')
     = Some stale_entry"
    by (simp add: stale_cache_def init_source_cache_def get_cache_key_def example_env_def)
  have h2: "entry_timestamp stale_entry = Some (Iso 0)"
    by (simp add: stale_entry_def)
  have h3: "now example_env - 0 > cache_ttl_hours stale_cache * 3600 * 1000000"
    by (simp add: stale_cache_def init_source_cache_def example_env_def
        default_cache_ttl_hours_def)
  have h4: "cache_ttl_hours stale_cache = 24"
    by (simp add: stale_cache_def init_source_cache_def default_cache_ttl_hours_def)
  have h5: "cache_files stale_cache (get_cache_key example_env ''https://docs.python.org/3/'')
     = Some ''old content''"
    by (simp add: stale_cache_def init_source_cache_def get_cache_key_def example_env_def)
  have h6: "\<not> remove_fails example_env"
    by (simp add: example_env_def)
  note t = expired_entry_evicted [OF h1 h2 h3]
  from t h6 have
    "fst (get example_env ''https://docs.python.org/3/'' stale_cache) = Inr None"
    "cache_index (snd (get example_env ''https://docs.python.org/3/'' stale_cache))
       (get_cache_key example_env ''https://docs.python.org/3/'') = None"
    "cache_files (snd (get example_env ''https://docs.python.org/3/'' stale_cache))
       (get_cache_key example_env ''https://docs.python.org/3/'') = None"
    by blast+
  with h1 h2 h3 h4 h5 h6 show ?thesis by blast
qed

text \<open>
  C10. \<open>should_cache(url)\<close> is true exactly when the lower-cased URL contains one of the
  16 allow-list strings as a substring; the test is on the whole URL, so a URL that
  contains a listed string anywhere (in its path or query string as well as in its host)
  is cache-worthy.
\<close>

theorem should_cache_is_substring_test:
  "(should_cache url \<longleftrightarrow>
      (\<exists>domain \<in> set cache_worthy_domains. \<exists>pre post. lower url = pre @ domain @ post)) \<and>
   length cache_worthy_domains = 16 \<and>
   (domain \<in> set cache_worthy_domains \<longrightarrow> should_cache (pre @ domain @ post))"
proof -
  have a: "should_cache u \<longleftrightarrow>
      (\<exists>domain \<in> set cache_worthy_domains. \<exists>pre post. lower u = pre @ domain @ post)" for u
    by (simp add: should_cache_def list_ex_iff substring_of_iff)
  have b: "length cache_worthy_domains = 16"
    by (simp add: cache_worthy_domains_def)
  have c: "should_cache (pre @ domain @ post)" if d: "domain \<in> set cache_worthy_domains"
  proof -
    have "lower (pre @ domain @ post) = lower pre @ domain @ lower post"
      using cache_worthy_domains_lower [OF d] by (simp add: lower_def)
    with d show ?thesis unfolding a by blast
  qed
  from a b c show ?thesis by blast
qed

theorem should_cache_is_substring_test_witness:
  "''docs.'' \<in> set cache_worthy_domains \<and>
   should_cache (''http://example.com/page?ref='' @ ''docs.'' @ ''html'') \<and>
   ''.org'' \<in> set cache_worthy_domains \<and>
   should_cache (''http://example.com/files/notes'' @ ''.org'' @ ''.txt'') \<and>
   \<not> should_cache ''http://example.com/page''"
proof -
  have h1: "''docs.'' \<in> set cache_worthy_domains"
    by (simp add: cache_worthy_domains_def)
  have h2: "''.org'' \<in> set cache_worthy_domains"
    by (simp add: cache_worthy_domains_def)
  have a: "should_cache (''http://example.com/page?ref='' @ ''docs.'' @ ''html'')"
    using h1 should_cache_is_substring_test
      [of _ "''docs.''" "''http://example.com/page?ref=''" "''html''"]
    by blast
  have b: "should_cache (''http://example.com/files/notes'' @ ''.org'' @ ''.txt'')"
    using h2 should_cache_is_substring_test
      [of _ "''.org''" "''http://example.com/files/notes''" "''.txt''"]
    by blast
  have c: "\<not> should_cache ''http://example.com/page''" by code_simp
  from h1 h2 a b c show ?thesis by blast
qed


section \<open>Global sufficiency check (main.py, \<open>_perform_sanity_check\<close>)\<close>

text \<open>
  A search result is the dictionary built by the search engine; \<open>url_field\<close> is its
  optional key \<open>'url'\<close>.
\<close>

record search_result =
  title :: "string option"
  link :: "string option"
  url_field :: "string option"

text \<open>
  The judgment returned by \<open>check_global_sufficiency\<close>: \<open>pass\<close> is the truth value of
  \<open>result.get('pass')\<close>, \<open>rescue_query\<close> is \<open>None\<close> for a missing or null query.
\<close>

record sufficiency =
  pass :: bool
  rescue_query :: "string option"
  gap_reason :: string

text \<open>The calls to the external capabilities, in the order they are made.\<close>

datatype external_call = Judge string "fact list" | Search string nat | Fetch "string option" nat

record rescue_world =
  check_global_sufficiency :: "string \<Rightarrow> fact list \<Rightarrow> sufficiency"
  search :: "string \<Rightarrow> nat \<Rightarrow> search_result list"
  scrape_worker :: "string \<Rightarrow> nat \<Rightarrow> string option"
  extract_key_info :: "string \<Rightarrow> string \<Rightarrow> string option \<Rightarrow> fact list"

text \<open>
  The state \<open>_perform_sanity_check\<close> works on: the shared fact list, the log of external
  calls and the counters of the metrics it records.
\<close>

record sanity_state = fact_store +
  calls :: "external_call list"
  rescue_queries :: nat
  scraping_successes :: nat
  scraping_failures :: nat
  facts_recorded :: nat

text \<open>\<open>result.get('link') or result.get('url')\<close>.\<close>

definition result_url :: "search_result \<Rightarrow> string option" where
  "result_url result =
     (case link result of
        Some l \<Rightarrow> if l \<noteq> [] then Some l else url_field result
      | None \<Rightarrow> url_field result)"

text \<open>
  The body of \<open>for result in search_results[:2]\<close>. The exception of
  \<open>scrape_with_timeout\<close> on a result without URL is raised before anything is fetched.
\<close>

definition rescue_result ::
  "rescue_world \<Rightarrow> string \<Rightarrow> sanity_state \<Rightarrow> search_result \<Rightarrow> error + sanity_state" where
  "rescue_result w user_prompt st result =
     (let url = result_url result in
      case scrape_with_timeout (scrape_worker w) url 7 of
        Inl e \<Rightarrow> Inl e
      | Inr scraped_content \<Rightarrow>
          (let st = st\<lparr>calls := calls st @ [Fetch url 7]\<rparr> in
           if truthy scraped_content then
             (case scraped_content of
                None \<Rightarrow> Inr st
              | Some content \<Rightarrow>
                 (let st = st\<lparr>scraping_successes := scraping_successes st + 1\<rparr>;
                      facts = extract_key_info w user_prompt content url
                  in if facts \<noteq> []
                     then Inr (st\<lparr>facts_recorded := facts_recorded st + length facts,
                                  all_collected_facts := all_collected_facts st @ facts\<rparr>)
                     else Inr st))
           else Inr (st\<lparr>scraping_failures := scraping_failures st + 1\<rparr>)))"

text \<open>The \<open>for\<close> loop: an exception ends it and leaves the state as it is.\<close>

fun rescue_loop ::
  "rescue_world \<Rightarrow> string \<Rightarrow> sanity_state \<Rightarrow> search_result list \<Rightarrow> error option \<times> sanity_state" where
  "rescue_loop w user_prompt st [] = (None, st)"
| "rescue_loop w user_prompt st (result # results) =
     (case rescue_result w user_prompt st result of
        Inl e \<Rightarrow> (Some e, st)
      | Inr st' \<Rightarrow> rescue_loop w user_prompt st' results)"

text \<open>
  \<open>_perform_sanity_check\<close>. The rescue query is run under \<open>if rescue_query:\<close>, which a
  null and an empty query both fail.
\<close>

definition perform_sanity_check ::
  "rescue_world \<Rightarrow> string \<Rightarrow> sanity_state \<Rightarrow> error option \<times> sanity_state" where
  "perform_sanity_check w user_prompt st0 =
     (let result = check_global_sufficiency w user_prompt (all_collected_facts st0);
          st = st0\<lparr>calls := calls st0 @ [Judge user_prompt (all_collected_facts st0)]\<rparr>
      in if pass result then (None, st)
         else
           (case rescue_query result of
              None \<Rightarrow> (None, st)
            | Some q \<Rightarrow>
                if q = [] then (None, st)
                else
                  (let st = st\<lparr>rescue_queries := rescue_queries st + 1,
                               calls := calls st @ [Search q 3]\<rparr>;
                       search_results = search w q 3
                   in rescue_loop w user_prompt st (take 2 search_results))))"


text \<open>The facts one rescue result contributes: those extracted from its non-empty content.\<close>

definition rescue_facts :: "rescue_world \<Rightarrow> string \<Rightarrow> search_result \<Rightarrow> fact list" where
  "rescue_facts w user_prompt result =
     (case scrape_with_timeout (scrape_worker w) (result_url result) 7 of
        Inr (Some content) \<Rightarrow>
          if content \<noteq> [] then extract_key_info w user_prompt content (result_url result)
          else []
      | _ \<Rightarrow> [])"

lemma rescue_result_Inr:
  assumes "rescue_result w p st r = Inr st'"
  shows "calls st' = calls st @ [Fetch (result_url r) 7] \<and>
         all_collected_facts st' = all_collected_facts st @ rescue_facts w p r \<and>
         rescue_queries st' = rescue_queries st"
  using assms
  by (auto simp: rescue_result_def rescue_facts_def truthy_def Let_def
      split: sum.splits option.splits if_splits)


definition has_url :: "search_result \<Rightarrow> bool" where
  "has_url result = (result_url result \<noteq> None)"

lemma rescue_result_no_url:
  "\<not> has_url r \<Longrightarrow> rescue_result w p st r = Inl AttributeError"
  by (simp add: has_url_def rescue_result_def scrape_with_timeout_def)

lemma rescue_result_has_url:
  "has_url r \<Longrightarrow> \<exists>st'. rescue_result w p st r = Inr st'"
  by (auto simp: has_url_def rescue_result_def scrape_with_timeout_def truthy_def Let_def
      split: option.splits)

lemma rescue_loop_effect:
  "calls (snd (rescue_loop w p st rs))
       = calls st @ map (\<lambda>r. Fetch (result_url r) 7) (takeWhile has_url rs) \<and>
   all_collected_facts (snd (rescue_loop w p st rs))
       = all_collected_facts st @ concat (map (rescue_facts w p) (takeWhile has_url rs)) \<and>
   fst (rescue_loop w p st rs) = (if list_all has_url rs then None else Some AttributeError) \<and>
   rescue_queries (snd (rescue_loop w p st rs)) = rescue_queries st"
proof (induction rs arbitrary: st)
  case Nil
  show ?case by simp
next
  case (Cons r rs)
  show ?case
  proof (cases "has_url r")
    case False
    then show ?thesis by (simp add: rescue_result_no_url)
  next
    case True
    then obtain st1 where st1: "rescue_result w p st r = Inr st1"
      using rescue_result_has_url by blast
    note r = rescue_result_Inr [OF st1]
    show ?thesis
      using True Cons.IH [of st1] r by (simp add: st1)
  qed
qed


text \<open>
  Without a usable rescue query (null or empty) a failed check makes the one judgment and
  nothing else: no search, no fetch, no fact added.
\<close>

lemma no_query_no_search:
  assumes "\<not> pass (check_global_sufficiency w user_prompt (all_collected_facts st))"
    and "rescue_query (check_global_sufficiency w user_prompt (all_collected_facts st)) = None \<or>
         rescue_query (check_global_sufficiency w user_prompt (all_collected_facts st)) = Some []"
  shows "perform_sanity_check w user_prompt st
           = (None, st\<lparr>calls := calls st @ [Judge user_prompt (all_collected_facts st)]\<rparr>)"
  using assms by (auto simp: perform_sanity_check_def Let_def)


text \<open>
  C9, as amended. When the sufficiency check returns \<open>pass\<close> false with a rescue query
  that is neither null nor empty, the calls made are: the one judgment, one search for the
  rescue query requesting 3 results, and the fetches of the first two results in order
  (up to the first result without URL, whose fetch raises); the facts extracted from these
  fetches are appended to the shared fact list; one rescue query is recorded; and no
  other judgment or search follows.
\<close>

theorem single_rescue_search:
  assumes "\<not> pass (check_global_sufficiency w user_prompt (all_collected_facts st))"
    and "rescue_query (check_global_sufficiency w user_prompt (all_collected_facts st)) = Some q"
    and "q \<noteq> []"
  shows "calls (snd (perform_sanity_check w user_prompt st))
           = calls st @ [Judge user_prompt (all_collected_facts st), Search q 3]
               @ map (\<lambda>r. Fetch (result_url r) 7) (takeWhile has_url (take 2 (search w q 3))) \<and>
         all_collected_facts (snd (perform_sanity_check w user_prompt st))
           = all_collected_facts st
               @ concat (map (rescue_facts w user_prompt)
                           (takeWhile has_url (take 2 (search w q 3)))) \<and>
         length (takeWhile has_url (take 2 (search w q 3))) \<le> 2 \<and>
         rescue_queries (snd (perform_sanity_check w user_prompt st)) = rescue_queries st + 1 \<and>
         fst (perform_sanity_check w user_prompt st)
           = (if list_all has_url (take 2 (search w q 3)) then None else Some AttributeError)"
proof -
  let ?st1 = "st\<lparr>calls := calls st @ [Judge user_prompt (all_collected_facts st)],
                  rescue_queries := rescue_queries st + 1,
                  calls := (calls st @ [Judge user_prompt (all_collected_facts st)])
                             @ [Search q 3]\<rparr>"
  have eq: "perform_sanity_check w user_prompt st
      = rescue_loop w user_prompt ?st1 (take 2 (search w q 3))"
    using assms by (simp add: perform_sanity_check_def Let_def)
  have len: "length (takeWhile has_url (take 2 (search w q 3))) \<le> 2"
    using length_takeWhile_le [of has_url "take 2 (search w q 3)"] by simp
  show ?thesis
    unfolding eq
    using rescue_loop_effect [of w user_prompt ?st1 "take 2 (search w q 3)"] len
    by simp
qed

definition plain_result :: "string \<Rightarrow> search_result" where
  "plain_result u = \<lparr>title = Some ''Title'', link = Some u, url_field = None\<rparr>"

definition cited :: "string \<Rightarrow> string option \<Rightarrow> fact" where
  "cited text source_url =
     JObject [(''fact'', JString text),
              (''source'', (case source_url of None \<Rightarrow> JNull | Some u \<Rightarrow> JString u))]"

definition rescue_example_world :: "string \<Rightarrow> rescue_world" where
  "rescue_example_world q =
     \<lparr>check_global_sufficiency = (\<lambda>prompt facts.
         \<lparr>pass = False, rescue_query = Some q, gap_reason = ''rent in Seattle is missing''\<rparr>),
      search = (\<lambda>query num_results.
         [plain_result ''https://a.example/1'', plain_result ''https://b.example/2'',
          plain_result ''https://c.example/3'']),
      scrape_worker = (\<lambda>url timeout. Some ''page text''),
      extract_key_info = (\<lambda>query raw_text source_url. [cited ''a finding'' source_url])\<rparr>"

definition fresh_sanity_state :: sanity_state where
  "fresh_sanity_state =
     \<lparr>all_collected_facts = [], calls = [], rescue_queries = 0,
      scraping_successes = 0, scraping_failures = 0, facts_recorded = 0\<rparr>"


text \<open>
  C9 as stated fails for a rescue query that is non-null and empty: \<open>if rescue_query:\<close>
  is false, so no search is made and nothing is fetched.
\<close>

theorem empty_rescue_query_no_search:
  "\<not> pass (check_global_sufficiency (rescue_example_world []) ''question'' []) \<and>
   rescue_query (check_global_sufficiency (rescue_example_world []) ''question'' []) = Some [] \<and>
   perform_sanity_check (rescue_example_world []) ''question'' fresh_sanity_state
     = (None, \<lparr>all_collected_facts = [], calls = [Judge ''question'' []], rescue_queries = 0,
               scraping_successes = 0, scraping_failures = 0, facts_recorded = 0\<rparr>)"
proof -
  have "perform_sanity_check (rescue_example_world []) ''question'' fresh_sanity_state
     = (None, \<lparr>all_collected_facts = [], calls = [Judge ''question'' []], rescue_queries = 0,
               scraping_successes = 0, scraping_failures = 0, facts_recorded = 0\<rparr>)"
    by code_simp
  then show ?thesis by (simp add: rescue_example_world_def)
qed

theorem single_rescue_search_witness:
  "\<not> pass (check_global_sufficiency (rescue_example_world ''seattle rent'') ''question''
            (all_collected_facts fresh_sanity_state)) \<and>
   rescue_query (check_global_sufficiency (rescue_example_world ''seattle rent'') ''question''
                   (all_collected_facts fresh_sanity_state)) = Some ''seattle rent'' \<and>
   ''seattle rent'' \<noteq> [] \<and>
   rescue_queries (snd (perform_sanity_check (rescue_example_world ''seattle rent'')
                          ''question'' fresh_sanity_state))
     = rescue_queries fresh_sanity_state + 1 \<and>
   perform_sanity_check (rescue_example_world ''seattle rent'') ''question'' fresh_sanity_state
     = (None,
        \<lparr>all_collected_facts = [cited ''a finding'' (Some ''https://a.example/1''),
                                 cited ''a finding'' (Some ''https://b.example/2'')],
         calls = [Judge ''question'' [], Search ''seattle rent'' 3,
                  Fetch (Some ''https://a.example/1'') 7,
                  Fetch (Some ''https://b.example/2'') 7],
         rescue_queries = 1,
         scraping_successes = 2, scraping_failures = 0, facts_recorded = 2\<rparr>)"
proof -
  have h1: "\<not> pass (check_global_sufficiency (rescue_example_world ''seattle rent'')
                      ''question'' (all_collected_facts fresh_sanity_state))"
    by (simp add: rescue_example_world_def)
  have h2: "rescue_query (check_global_sufficiency (rescue_example_world ''seattle rent'')
                            ''question'' (all_collected_facts fresh_sanity_state))
              = Some ''seattle rent''"
    by (simp add: rescue_example_world_def)
  have h3: "''seattle rent'' \<noteq> []" by simp
  have a: "rescue_queries (snd (perform_sanity_check (rescue_example_world ''seattle rent'')
                          ''question'' fresh_sanity_state))
     = rescue_queries fresh_sanity_state + 1"
    using single_rescue_search [OF h1 h2 h3] by blast
  have b: "perform_sanity_check (rescue_example_world ''seattle rent'') ''question''
             fresh_sanity_state
     = (None,
        \<lparr>all_collected_facts = [cited ''a finding'' (Some ''https://a.example/1''),
                                 cited ''a finding'' (Some ''https://b.example/2'')],
         calls = [Judge ''question'' [], Search ''seattle rent'' 3,
                  Fetch (Some ''https://a.example/1'') 7,
                  Fetch (Some ''https://b.example/2'') 7],
         rescue_queries = 1,
         scraping_successes = 2, scraping_failures = 0, facts_recorded = 2\<rparr>)"
    by code_simp
  from h1 h2 h3 a b show ?thesis by blast
qed


section \<open>Checkpoints (utils/checkpoint_manager.py; main.py, \<open>_save_checkpoint\<close>, \<open>_load_checkpoint\<close>)\<close>

text \<open>
  A Python dictionary with string keys is an association list in insertion order;
  \<open>AList.update\<close> is the assignment of a key. \<open>dict_get\<close> is \<open>d.get(k, default)\<close>.
\<close>

type_synonym pydict = "(string \<times> json) list"

definition dict_get :: "pydict \<Rightarrow> string \<Rightarrow> json \<Rightarrow> json" where
  "dict_get d k dflt = (case map_of d k of Some v \<Rightarrow> v | None \<Rightarrow> dflt)"

text \<open>
  What the checkpoint code takes from its environment: the timestamp string of
  \<open>datetime.now().isoformat()\<close>, whether writing or reading the checkpoint file fails, and
  the order in which \<open>list(s)\<close> enumerates a set.
\<close>

record checkpoint_env =
  isoformat_now :: string
  checkpoint_write_fails :: bool
  checkpoint_read_fails :: bool
  py_list :: "json set \<Rightarrow> json list"

text \<open>
  The checkpoint file is modelled by the JSON document it holds (\<open>None\<close>: no file):
  \<open>json.dump\<close> followed by \<open>json.load\<close> is taken to return the document written.
  \<open>save\<close> does not catch the failure of the write.
\<close>

definition save :: "checkpoint_env \<Rightarrow> pydict \<Rightarrow> json option \<Rightarrow> error + json option" where
  "save env state checkpoint_file =
     (let checkpoint_data =
            AList.update ''checkpoint_version'' (JString ''1.0'')
              (AList.update ''timestamp'' (JString (isoformat_now env)) state)
      in if checkpoint_write_fails env then Inl OSError
         else Inr (Some (JObject checkpoint_data)))"

text \<open>\<open>load\<close>: no file, a failing read and a document that is not an object all give
  \<open>None\<close>.\<close>

definition load :: "checkpoint_env \<Rightarrow> json option \<Rightarrow> pydict option" where
  "load env checkpoint_file =
     (case checkpoint_file of
        None \<Rightarrow> None
      | Some document \<Rightarrow>
          if checkpoint_read_fails env then None
          else (case document of JObject checkpoint_data \<Rightarrow> Some checkpoint_data | _ \<Rightarrow> None))"

text \<open>
  The part of the \<open>ResearchSystem\<close> object a checkpoint captures: the shared fact list
  and the set of scraped URLs (strings, or \<open>None\<close> for a search result without link), and
  the count of \<open>metrics.record_checkpoint()\<close>.
\<close>

record ResearchSystem = fact_store +
  scraped_urls :: "json set"
  checkpoints_recorded :: nat

text \<open>\<open>_save_checkpoint\<close>.\<close>

definition save_checkpoint ::
  "checkpoint_env \<Rightarrow> string \<Rightarrow> json \<Rightarrow> int \<Rightarrow> json option \<Rightarrow> ResearchSystem
     \<Rightarrow> error + json option \<times> ResearchSystem" where
  "save_checkpoint env user_prompt research_plan current_step checkpoint_file sys =
     (let state =
            [(''user_prompt'', JString user_prompt),
             (''research_plan'', research_plan),
             (''current_step'', JInt current_step),
             (''completed_steps'', JList (map JInt [1..current_step])),
             (''all_collected_facts'', JList (all_collected_facts sys)),
             (''scraped_urls'', JList (py_list env (scraped_urls sys)))]
      in case save env state checkpoint_file of
           Inl e \<Rightarrow> Inl e
         | Inr checkpoint_file' \<Rightarrow>
             Inr (checkpoint_file', sys\<lparr>checkpoints_recorded := checkpoints_recorded sys + 1\<rparr>))"

text \<open>
  \<open>set(x)\<close>: the elements of a list, the characters of a string or the keys of a
  dictionary; \<open>TypeError\<close> on an unhashable element and on a value that is not iterable.
\<close>

fun unhashable :: "json \<Rightarrow> bool" where
  "unhashable (JList xs) = True"
| "unhashable (JObject d) = True"
| "unhashable v = False"

fun py_set :: "json \<Rightarrow> error + json set" where
  "py_set (JList xs) = (if list_ex unhashable xs then Inl TypeError else Inr (set xs))"
| "py_set (JString s) = Inr (set (map (\<lambda>c. JString [c]) s))"
| "py_set (JObject d) = Inr (set (map (\<lambda>(k, v). JString k) d))"
| "py_set v = Inl TypeError"

text \<open>
  \<open>_load_checkpoint\<close>: \<open>if checkpoint_data:\<close> is false for \<open>None\<close> and for an empty
  dictionary. A checkpoint written by \<open>save\<close> holds a list under
  \<open>all_collected_facts\<close>; for any other value the model raises \<open>TypeError\<close>.
\<close>

definition load_checkpoint ::
  "checkpoint_env \<Rightarrow> json option \<Rightarrow> ResearchSystem \<Rightarrow> error + ResearchSystem" where
  "load_checkpoint env checkpoint_file sys =
     (case load env checkpoint_file of
        None \<Rightarrow> Inr sys
      | Some checkpoint_data \<Rightarrow>
          if checkpoint_data = [] then Inr sys
          else
            (case dict_get checkpoint_data ''all_collected_facts'' (JList []) of
               JList facts \<Rightarrow>
                 (case py_set (dict_get checkpoint_data ''scraped_urls'' (JList [])) of
                    Inl e \<Rightarrow> Inl e
                  | Inr urls \<Rightarrow> Inr (sys\<lparr>all_collected_facts := facts, scraped_urls := urls\<rparr>))
             | _ \<Rightarrow> Inl TypeError))"

text \<open>The values stored in the set of scraped URLs: a string or \<open>None\<close>.\<close>

definition is_url_value :: "json \<Rightarrow> bool" where
  "is_url_value v = (case v of JNull \<Rightarrow> True | JString s \<Rightarrow> True | _ \<Rightarrow> False)"

lemma url_value_hashable: "is_url_value u \<Longrightarrow> \<not> unhashable u"
  by (cases u) (simp_all add: is_url_value_def)

lemma url_values_hashable:
  "\<forall>u \<in> set xs. is_url_value u \<Longrightarrow> \<not> list_ex unhashable xs"
  by (auto simp: list_ex_iff dest: url_value_hashable)

text \<open>
  C8. Save a checkpoint of a pipeline state (user prompt, plan, current step, fact list,
  set of scraped URLs) and let the save succeed; then loading that checkpoint file into
  any system (when the read succeeds) sets its fact list to the saved fact list and
  its set of scraped URLs to the saved set, and changes nothing else.
\<close>

theorem checkpoint_roundtrip:
  assumes "set (py_list env (scraped_urls sys)) = scraped_urls sys"
    and "\<forall>u \<in> scraped_urls sys. is_url_value u"
    and "save_checkpoint env user_prompt research_plan current_step checkpoint_file sys
           = Inr (checkpoint_file', sys')"
    and "\<not> checkpoint_read_fails env"
  shows "load_checkpoint env checkpoint_file' fresh
           = Inr (fresh\<lparr>all_collected_facts := all_collected_facts sys,
                         scraped_urls := scraped_urls sys\<rparr>)"
proof -
  from assms(1,2) have h: "\<not> list_ex unhashable (py_list env (scraped_urls sys))"
    using url_values_hashable [of "py_list env (scraped_urls sys)"] by simp
  from assms(3) have f: "checkpoint_file' = Some (JObject
      (AList.update ''checkpoint_version'' (JString ''1.0'')
        (AList.update ''timestamp'' (JString (isoformat_now env))
          [(''user_prompt'', JString user_prompt),
           (''research_plan'', research_plan),
           (''current_step'', JInt current_step),
           (''completed_steps'', JList (map JInt [1..current_step])),
           (''all_collected_facts'', JList (all_collected_facts sys)),
           (''scraped_urls'', JList (py_list env (scraped_urls sys)))])))"
    by (auto simp: save_checkpoint_def save_def Let_def split: if_splits sum.splits)
  show ?thesis
    using assms(1,4) h
    by (simp add: f load_checkpoint_def load_def dict_get_def)
qed


definition example_checkpoint_env :: checkpoint_env where
  "example_checkpoint_env =
     \<lparr>isoformat_now = ''2025-01-01T12:00:00.000000'',
      checkpoint_write_fails = False, checkpoint_read_fails = False,
      py_list = (\<lambda>s. filter (\<lambda>u. u \<in> s) [JNull, JString ''https://a.example/1''])\<rparr>"

definition example_system :: ResearchSystem where
  "example_system =
     \<lparr>all_collected_facts =
        [JObject [(''fact'', JString ''a finding''), (''source'', JString ''https://a.example/1'')]],
      scraped_urls = {JString ''https://a.example/1'', JNull},
      checkpoints_recorded = 0\<rparr>"

definition new_system :: ResearchSystem where
  "new_system = \<lparr>all_collected_facts = [], scraped_urls = {}, checkpoints_recorded = 0\<rparr>"

definition example_plan :: json where
  "example_plan = JObject [(''main_objective'', JString ''question''), (''steps'', JList [])]"

definition example_checkpoint_file :: "json option" where
  "example_checkpoint_file =
     Some (JObject
       [(''user_prompt'', JString ''question''),
        (''research_plan'', example_plan),
        (''current_step'', JInt 2),
        (''completed_steps'', JList [JInt 1, JInt 2]),
        (''all_collected_facts'', JList
           [JObject [(''fact'', JString ''a finding''),
                     (''source'', JString ''https://a.example/1'')]]),
        (''scraped_urls'', JList [JNull, JString ''https://a.example/1'']),
        (''timestamp'', JString ''2025-01-01T12:00:00.000000''),
        (''checkpoint_version'', JString ''1.0'')])"

theorem checkpoint_roundtrip_witness:
  "set (py_list example_checkpoint_env (scraped_urls example_system))
     = scraped_urls example_system \<and>
   is_url_value (JString ''https://a.example/1'') \<and> is_url_value JNull \<and>
   save_checkpoint example_checkpoint_env ''question'' example_plan 2 None example_system
     = Inr (example_checkpoint_file, example_system\<lparr>checkpoints_recorded := 1\<rparr>) \<and>
   \<not> checkpoint_read_fails example_checkpoint_env \<and>
   load_checkpoint example_checkpoint_env example_checkpoint_file new_system
     = Inr \<lparr>all_collected_facts =
              [JObject [(''fact'', JString ''a finding''),
                        (''source'', JString ''https://a.example/1'')]],
            scraped_urls = {JString ''https://a.example/1'', JNull},
            checkpoints_recorded = 0\<rparr>"
proof -
  have h1: "set (py_list example_checkpoint_env (scraped_urls example_system))
     = scraped_urls example_system"
    by (auto simp: example_checkpoint_env_def example_system_def)
  have u: "is_url_value (JString ''https://a.example/1'')" "is_url_value JNull"
    by (simp_all add: is_url_value_def)
  then have h2: "\<forall>u \<in> scraped_urls example_system. is_url_value u"
    by (simp add: example_system_def)
  have up: "[1..2] = [1, 2 :: int]" by code_simp
  have h3: "save_checkpoint example_checkpoint_env ''question'' example_plan 2 None example_system
     = Inr (example_checkpoint_file, example_system\<lparr>checkpoints_recorded := 1\<rparr>)"
    by (simp add: save_checkpoint_def save_def example_checkpoint_env_def example_system_def
        example_checkpoint_file_def up)
  have h4: "\<not> checkpoint_read_fails example_checkpoint_env"
    by (simp add: example_checkpoint_env_def)
  have "load_checkpoint example_checkpoint_env example_checkpoint_file new_system
     = Inr (new_system\<lparr>all_collected_facts := all_collected_facts example_system,
                         scraped_urls := scraped_urls example_system\<rparr>)"
    using checkpoint_roundtrip [OF h1 h2 h3 h4] .
  then have h5: "load_checkpoint example_checkpoint_env example_checkpoint_file new_system
     = Inr \<lparr>all_collected_facts =
              [JObject [(''fact'', JString ''a finding''),
                        (''source'', JString ''https://a.example/1'')]],
            scraped_urls = {JString ''https://a.example/1'', JNull},
            checkpoints_recorded = 0\<rparr>"
    by (simp add: new_system_def example_system_def)
  from h1 u h3 h4 h5 show ?thesis by blast
qed


end
